theory Spec2Isabelle
  imports Complex_Main "HOL-Library.Monad_Syntax"
begin

section \<open>Data model (src/src/types/game.ts)\<close>

text \<open>
  JavaScript numbers are modelled as follows: counters, ages and millisecond timestamps
  are \<open>int\<close>, scores and durations are \<open>real\<close>. The rounding of IEEE doubles and
  infinite inputs are outside the model. Where the source can meet a value that is not
  a finite number, the model has an option type with \<open>None\<close> for it, so that such a
  computation has a branch of its own.

  The fields of \<open>GameCard\<close> that neither engine reads (\<open>id\<close>, \<open>title\<close>,
  \<open>coverUrl\<close>, \<open>creator\<close> and so on) are left out.
\<close>

datatype TrustLevel = verified | featured | hall

record SecurityStatus =
  hasAds :: bool
  hasTracking :: bool
  hasExternalLinks :: bool
  contentModerated :: bool

text \<open>
  The interface \<open>TrustBadge\<close> of game.ts declares the flags as the property
  \<open>securityCheck\<close>, and TrustBadge.tsx reads them there. The engine reads the property
  \<open>securityChecks\<close>, which the interface does not declare. A JavaScript object may carry
  both properties, so the record has both: \<open>securityCheck\<close>, always present, and
  \<open>securityChecks\<close>, which is \<open>None\<close> (\<open>undefined\<close>) on every object that has the
  declared properties only.
\<close>

record TrustBadge =
  level :: TrustLevel
  parentRating :: real
  totalRatings :: int
  securityCheck :: SecurityStatus
  securityChecks :: "SecurityStatus option"

text \<open>Reading a property of \<open>undefined\<close> raises \<open>TypeError\<close>.\<close>

datatype error = TypeError

text \<open>
  \<open>avgPlayTime\<close> is read as \<open>stats.avgPlayTime || 0\<close>, so a missing or \<open>NaN\<close>
  value is part of the input domain: it is \<open>None\<close> here. (\<open>||\<close> also replaces the
  number 0, by 0.)
\<close>

record GameStats =
  likes :: int
  opens :: int
  reports :: int
  avgPlayTime :: "real option"

record GameCard =
  ageRange :: "int \<times> int"
  trustBadge :: TrustBadge
  stats :: GameStats
  lastPlayed :: "int option"

section \<open>TrustScoreEngine (src/src/services/GamePublisher.ts)\<close>

text \<open>
  JavaScript's \<open>/\<close> with a divisor that is a variable: the quotient is a finite number
  only when the divisor is not zero (\<open>x / 0\<close> is an infinity or \<open>NaN\<close>); \<open>None\<close> is
  the quotient that is not a finite number.
\<close>

definition js_div :: "real \<Rightarrow> real \<Rightarrow> real option" where
  "js_div a b = (if b = 0 then None else Some (a / b))"

text \<open>The local constants of \<open>getBaseScore\<close>, in the order of the source.\<close>

definition playTimeScore :: "GameStats \<Rightarrow> real" where
  "playTimeScore s =
     (let avgPlayTime' = (case avgPlayTime s of
                            None \<Rightarrow> 0
                          | Some t \<Rightarrow> if t = 0 then 0 else t)
      in min (avgPlayTime' / 60) 1)"

definition likeRate :: "GameStats \<Rightarrow> real option" where
  "likeRate s =
     (if opens s > 0 then js_div (real_of_int (likes s)) (real_of_int (opens s))
      else Some 0)"

definition reportRate :: "GameStats \<Rightarrow> real option" where
  "reportRate s =
     (if opens s > 0 then js_div (real_of_int (reports s)) (real_of_int (opens s))
      else Some 0)"

definition getBaseScore :: "GameCard \<Rightarrow> real option" where
  "getBaseScore game =
     do {
       lr \<leftarrow> likeRate (stats game);
       rr \<leftarrow> reportRate (stats game);
       Some (playTimeScore (stats game) * 0.4 + lr * 0.4 + (1 - rr) * 0.2)
     }"

text \<open>
  \<open>getAgeMatchScore(game, userAge?)\<close>: the optional argument is an option;
  \<open>Math.abs\<close> on integers is \<open>abs\<close>.
\<close>

definition TrustScoreEngine_getAgeMatchScore :: "GameCard \<Rightarrow> int option \<Rightarrow> real" where
  "TrustScoreEngine_getAgeMatchScore game userAge' =
     (case userAge' of
        None \<Rightarrow> 1.0
      | Some userAge \<Rightarrow>
          (case ageRange game of (minAge, maxAge) \<Rightarrow>
             if userAge \<ge> minAge \<and> userAge \<le> maxAge then 1.0
             else if \<bar>userAge - minAge\<bar> \<le> 1 \<or> \<bar>userAge - maxAge\<bar> \<le> 1 then 0.8
             else if \<bar>userAge - minAge\<bar> \<le> 2 \<or> \<bar>userAge - maxAge\<bar> \<le> 2 then 0.6
             else 0.3))"

text \<open>
  \<open>const { securityChecks } = game.trustBadge\<close> binds \<open>undefined\<close> when the property
  is absent; the first read of a flag, \<open>securityChecks.hasAds\<close>, then raises.
\<close>

definition getRiskLevelScore :: "GameCard \<Rightarrow> error + real" where
  "getRiskLevelScore game =
     (case securityChecks (trustBadge game) of
        None \<Rightarrow> Inl TypeError
      | Some securityChecks' \<Rightarrow>
          (let score0 = 1.0;
               score1 = (if hasAds securityChecks' then score0 * 0.7 else score0);
               score2 = (if hasTracking securityChecks' then score1 * 0.8 else score1);
               score3 = (if hasExternalLinks securityChecks' then score2 * 0.9 else score2);
               score4 = (if contentModerated securityChecks' then score3 * 1.0 else score3)
           in Inr (max score4 0.5)))"

text \<open>
  \<open>getFreshnessScore\<close> reads the clock: \<open>Date.now()\<close> once in
  \<open>game.lastPlayed || Date.now()\<close> (only when \<open>lastPlayed\<close> is missing or 0) and once
  in the difference. The two readings are the parameters \<open>now1\<close> and \<open>now2\<close>.
\<close>

definition getFreshnessScore :: "int \<Rightarrow> int \<Rightarrow> GameCard \<Rightarrow> real" where
  "getFreshnessScore now1 now2 game =
     (let lastUpdated = (case lastPlayed game of
                           None \<Rightarrow> now1
                         | Some t \<Rightarrow> if t = 0 then now1 else t);
          daysSinceUpdate = real_of_int (now2 - lastUpdated) / (1000 * 60 * 60 * 24)
      in if daysSinceUpdate \<le> 7 then 1.0
         else if daysSinceUpdate \<le> 30 then 0.9
         else if daysSinceUpdate \<le> 90 then 0.8
         else 0.7)"

text \<open>
  The four factors are computed in the order of the source; an exception of
  \<open>getRiskLevelScore\<close> ends the call (\<open>Inl\<close>). A call that returns gives a number
  (\<open>Inr\<close>), which is finite (\<open>Some\<close>) when the base score is.
\<close>

definition calculateTrustScore :: "int \<Rightarrow> int \<Rightarrow> GameCard \<Rightarrow> error + real option" where
  "calculateTrustScore now1 now2 game =
     (let baseScore' = getBaseScore game;
          ageMatch = TrustScoreEngine_getAgeMatchScore game None
      in case getRiskLevelScore game of
           Inl e \<Rightarrow> Inl e
         | Inr riskLevel \<Rightarrow>
             (let freshness = getFreshnessScore now1 now2 game
              in Inr (do {
                   baseScore \<leftarrow> baseScore';
                   Some (baseScore * ageMatch * riskLevel * freshness)
                 })))"

definition getTrustLevel :: "real \<Rightarrow> TrustLevel" where
  "getTrustLevel trustScore =
     (if trustScore \<ge> 0.9 then hall
      else if trustScore \<ge> 0.75 then featured
      else verified)"

text \<open>
  \<open>isGameSafe(game, strictMode = false)\<close>: the default is the caller's to pass. The
  first read, \<open>securityChecks.contentModerated\<close>, raises when \<open>securityChecks\<close> is
  \<open>undefined\<close>.
\<close>

definition isGameSafe :: "GameCard \<Rightarrow> bool \<Rightarrow> error + bool" where
  "isGameSafe game strictMode =
     (case securityChecks (trustBadge game) of
        None \<Rightarrow> Inl TypeError
      | Some securityChecks' \<Rightarrow>
          Inr (if \<not> contentModerated securityChecks' then False
               else if strictMode \<and> (hasAds securityChecks' \<or> hasTracking securityChecks')
               then False
               else True))"

section \<open>AgeRecommendationEngine (src/unnamed/part_002)\<close>

text \<open>
  An entry of \<open>UserHistory.recentGames\<close>. Its field \<open>ageRange\<close> is named
  \<open>ageRange_rg\<close> here, because a field name belongs to one record.
\<close>

record RecentGame =
  gameId :: string
  ageRange_rg :: "int \<times> int"
  playedAt :: int

record UserHistory =
  recentGames :: "RecentGame list"
  preferredAge :: "(int \<times> int) option"

definition getDefaultAge :: "int \<times> int" where
  "getDefaultAge = (6, 9)"

definition AgeRecommendationEngine_getAgeMatchScore :: "int \<Rightarrow> int \<times> int \<Rightarrow> real" where
  "AgeRecommendationEngine_getAgeMatchScore userAge gameAgeRange =
     (case gameAgeRange of (minAge, maxAge) \<Rightarrow>
        if userAge \<ge> minAge \<and> userAge \<le> maxAge then 1.0
        else if \<bar>userAge - minAge\<bar> \<le> 1 \<or> \<bar>userAge - maxAge\<bar> \<le> 1 then 0.8
        else if \<bar>userAge - minAge\<bar> \<le> 2 \<or> \<bar>userAge - maxAge\<bar> \<le> 2 then 0.6
        else 0.3)"

text \<open>
  The map key of \<open>getMostCommonAgeRange\<close> is the template string
  \<open>`${ageRange[0]}-${ageRange[1]}`\<close>. An integer is rendered in decimal, with a
  leading minus sign when negative (JavaScript does so for every integer below
  \<open>10^21\<close> in absolute value).
\<close>

definition digitChar :: "nat \<Rightarrow> char" where
  "digitChar d = char_of (48 + d)"

fun natToString :: "nat \<Rightarrow> string" where
  "natToString n =
     (if n < 10 then [digitChar n]
      else natToString (n div 10) @ [digitChar (n mod 10)])"

declare natToString.simps [simp del]

definition numToString :: "int \<Rightarrow> string" where
  "numToString i =
     (if i < 0 then CHR ''-'' # natToString (nat (- i)) else natToString (nat i))"

definition ageKey :: "int \<times> int \<Rightarrow> string" where
  "ageKey r = (case r of (lo, hi) \<Rightarrow> numToString lo @ ''-'' @ numToString hi)"

text \<open>
  A value of the map \<open>counts\<close>: \<open>{ count, ageRange }\<close>. A JavaScript \<open>Map\<close> iterates
  in insertion order, so \<open>counts\<close> is an association list in insertion order.
  \<open>existing.count++\<close> changes the entry in place; \<open>counts.set\<close> of a new key appends.
\<close>

record CountEntry =
  count :: nat
  ageRange_ct :: "int \<times> int"

definition tallyStep ::
  "(string \<times> CountEntry) list \<Rightarrow> int \<times> int \<Rightarrow> (string \<times> CountEntry) list" where
  "tallyStep counts r =
     (let key = ageKey r in
      case map_of counts key of
        Some existing \<Rightarrow>
          map (\<lambda>(k, e). if k = key then (k, e\<lparr>count := count e + 1\<rparr>) else (k, e)) counts
      | None \<Rightarrow> counts @ [(key, \<lparr>count = 1, ageRange_ct = r\<rparr>)])"

text \<open>
  \<open>Array.prototype.sort\<close> is stable (ECMAScript 2019), and the comparator
  \<open>(a, b) => b.count - a.count\<close> orders by descending count: this is the stable
  insertion sort \<open>sort_key\<close> on the negated count.
\<close>

definition getMostCommonAgeRange :: "(int \<times> int) list \<Rightarrow> (int \<times> int) option" where
  "getMostCommonAgeRange ageRanges =
     (if length ageRanges = 0 then None
      else
        let counts = foldl tallyStep [] ageRanges;
            sorted = sort_key (\<lambda>e. - int (count e)) (map snd counts)
        in case sorted of [] \<Rightarrow> None | e # _ \<Rightarrow> Some (ageRange_ct e))"

text \<open>
  \<open>recommendAge(userHistory?)\<close>. An array is truthy, so \<open>!userHistory.recentGames\<close>
  is false for every list, \<open>if (userHistory.preferredAge)\<close> tests that the preference
  is present, and \<open>mostCommon || this.getDefaultAge()\<close> falls back only on \<open>null\<close>.
\<close>

definition recommendAge :: "UserHistory option \<Rightarrow> int \<times> int" where
  "recommendAge userHistory' =
     (case userHistory' of
        None \<Rightarrow> getDefaultAge
      | Some userHistory \<Rightarrow>
          if length (recentGames userHistory) = 0 then getDefaultAge
          else
            (case preferredAge userHistory of
               Some p \<Rightarrow> p
             | None \<Rightarrow>
                 (let recentAges = map ageRange_rg (recentGames userHistory);
                      mostCommon = getMostCommonAgeRange recentAges
                  in case mostCommon of Some r \<Rightarrow> r | None \<Rightarrow> getDefaultAge)))"

text \<open>\<open>recordAgeSelection\<close> reads the clock once; the reading is the parameter \<open>now\<close>.\<close>

definition recordAgeSelection :: "int \<Rightarrow> UserHistory option \<Rightarrow> int \<times> int \<Rightarrow> UserHistory" where
  "recordAgeSelection now userHistory' r =
     (let history = (case userHistory' of
                       None \<Rightarrow> \<lparr>recentGames = [], preferredAge = None\<rparr>
                     | Some h \<Rightarrow> h)
      in history\<lparr>preferredAge := Some r,
                 recentGames :=
                   \<lparr>gameId = ''age-selection'', ageRange_rg = r, playedAt = now\<rparr>
                   # take 49 (recentGames history)\<rparr>)"

section \<open>Tie-break rules the code is compared with\<close>

text \<open>
  The specification's words for the tie-break of \<open>recommend\<close>: one pass over the
  list that keeps a running count per band and the best band so far; a band becomes the
  best when its count exceeds the best count. The result is the first band to reach the
  highest count.
\<close>

definition spec_passStep ::
  "((int \<times> int) \<Rightarrow> nat) \<times> ((int \<times> int) \<times> nat) option \<Rightarrow> int \<times> int \<Rightarrow>
   ((int \<times> int) \<Rightarrow> nat) \<times> ((int \<times> int) \<times> nat) option" where
  "spec_passStep st r =
     (case st of (seen, best) \<Rightarrow>
        let c = seen r + 1 in
        (seen(r := c),
         case best of
           None \<Rightarrow> Some (r, c)
         | Some (b, m) \<Rightarrow> if c > m then Some (r, c) else Some (b, m)))"

definition spec_firstToReachMaxCount :: "(int \<times> int) list \<Rightarrow> (int \<times> int) option" where
  "spec_firstToReachMaxCount ageRanges =
     map_option fst (snd (foldl spec_passStep (\<lambda>_. 0, None) ageRanges))"

text \<open>
  The rule the code follows: the first element of the list, in list order, that occurs at
  least as often as every element of the list.
\<close>

definition firstMostFrequent :: "'a list \<Rightarrow> 'a option" where
  "firstMostFrequent xs =
     List.find (\<lambda>r. \<forall>r'\<in>set xs. count_list xs r' \<le> count_list xs r) xs"

section \<open>Auxiliary notions for the proofs\<close>

definition isDigit :: "char \<Rightarrow> bool" where
  "isDigit c = (48 \<le> (of_char c :: nat) \<and> (of_char c :: nat) \<le> 57)"

text \<open>The contents of \<open>counts\<close> after the \<open>forEach\<close> over \<open>ps\<close>, in closed form.\<close>

definition tallyOf :: "(int \<times> int) list \<Rightarrow> (string \<times> CountEntry) list" where
  "tallyOf ps =
     map (\<lambda>r. (ageKey r, \<lparr>count = count_list ps r, ageRange_ct = r\<rparr>)) (rev (remdups (rev ps)))"

section \<open>Trust tiers\<close>

text \<open>
  C5. For every real score, \<open>getTrustLevel\<close> returns \<open>hall\<close> from 0.9 upwards,
  \<open>featured\<close> from 0.75 up to but excluding 0.9, and \<open>verified\<close> below 0.75: each
  boundary belongs to the higher tier.
\<close>

theorem getTrustLevel_tiers:
  "getTrustLevel s =
     (if s \<ge> 0.9 then hall else if 0.75 \<le> s \<and> s < 0.9 then featured else verified)"
  by (simp add: getTrustLevel_def)

text \<open>
  C3, as the specification states it: the score exactly 0.9 would be classified
  \<open>featured\<close>. The code classifies it \<open>hall\<close>.
\<close>

theorem getTrustLevel_point_nine_not_featured:
  "getTrustLevel 0.9 \<noteq> featured"
  by (simp add: getTrustLevel_def)

text \<open>
  C3, amended: 0.9 is classified \<open>hall\<close>; the four other boundary values are classified
  as the specification says.
\<close>

theorem getTrustLevel_boundaries:
  "getTrustLevel 0.9 = hall \<and> getTrustLevel 0.8999 = featured \<and>
   getTrustLevel 0.75 = featured \<and> getTrustLevel 0.7499 = verified \<and>
   getTrustLevel 0.9001 = hall"
  by (simp add: getTrustLevel_def)

section \<open>Safety gate\<close>

text \<open>
  C7. The claim has \<open>isGameSafe\<close> return false whenever the content is not moderated.
  On a card built to the interface of game.ts (flags under \<open>securityCheck\<close>, no
  \<open>securityChecks\<close>) whose content is not moderated, the call raises \<open>TypeError\<close> in
  both modes and returns nothing.
\<close>

theorem isGameSafe_raises_on_declared_card:
  "isGameSafe
     \<lparr>ageRange = (6, 9),
       trustBadge = \<lparr>level = verified, parentRating = 4.5, totalRatings = 10,
         securityCheck = \<lparr>hasAds = False, hasTracking = False,
           hasExternalLinks = False, contentModerated = False\<rparr>,
         securityChecks = None\<rparr>,
       stats = \<lparr>likes = 1, opens = 2, reports = 0, avgPlayTime = Some 30\<rparr>,
       lastPlayed = None\<rparr> False = Inl TypeError \<and>
   isGameSafe
     \<lparr>ageRange = (6, 9),
       trustBadge = \<lparr>level = verified, parentRating = 4.5, totalRatings = 10,
         securityCheck = \<lparr>hasAds = False, hasTracking = False,
           hasExternalLinks = False, contentModerated = False\<rparr>,
         securityChecks = None\<rparr>,
       stats = \<lparr>likes = 1, opens = 2, reports = 0, avgPlayTime = Some 30\<rparr>,
       lastPlayed = None\<rparr> True = Inl TypeError"
  by (simp add: isGameSafe_def)

text \<open>
  On the cards that carry the flags where the engine reads them, the result is the one
  the claim states: false when the content is not moderated, false in strict mode
  when there are ads or tracking, true otherwise.
\<close>

lemma isGameSafe_when_flags_present:
  assumes "securityChecks (trustBadge game) = Some flags"
  shows "isGameSafe game strictMode =
           Inr (contentModerated flags \<and> \<not> (strictMode \<and> (hasAds flags \<or> hasTracking flags)))"
  using assms by (simp add: isGameSafe_def)

lemma isGameSafe_raises_iff:
  "isGameSafe game strictMode = Inl TypeError \<longleftrightarrow> securityChecks (trustBadge game) = None"
  by (simp add: isGameSafe_def split: option.splits)

section \<open>Engagement score\<close>

lemma getBaseScore_total: "\<exists>v. getBaseScore game = Some v"
  by (simp add: getBaseScore_def likeRate_def reportRate_def js_div_def)

text \<open>
  C6. When \<open>opens\<close> is 0, the like rate and the report rate are both the number 0, so
  the suppression term \<open>1 - reportRate\<close> is 1, and \<open>getBaseScore\<close> returns a finite
  number for every value of \<open>likes\<close>, \<open>reports\<close> and \<open>avgPlayTime\<close> (a missing or
  \<open>NaN\<close> play time included).
\<close>

theorem getBaseScore_opens_zero:
  assumes "opens (stats game) = 0"
  shows "likeRate (stats game) = Some 0 \<and> reportRate (stats game) = Some 0 \<and>
         getBaseScore game = Some (playTimeScore (stats game) * 0.4 + 0 * 0.4 + 1 * 0.2)"
  using assms by (simp add: getBaseScore_def likeRate_def reportRate_def)

text \<open>
  C6, at a game that was never opened, with 5 likes, 3 reports and no play time: the
  score is 0.2.
\<close>

theorem getBaseScore_opens_zero_witness:
  "getBaseScore
     \<lparr>ageRange = (6, 9),
       trustBadge = \<lparr>level = verified, parentRating = 4.5, totalRatings = 10,
         securityCheck = \<lparr>hasAds = False, hasTracking = False,
           hasExternalLinks = False, contentModerated = True\<rparr>,
         securityChecks = None\<rparr>,
       stats = \<lparr>likes = 5, opens = 0, reports = 3, avgPlayTime = None\<rparr>,
       lastPlayed = None\<rparr> = Some (1 / 5)"
  using getBaseScore_opens_zero [of
     "\<lparr>ageRange = (6, 9),
       trustBadge = \<lparr>level = verified, parentRating = 4.5, totalRatings = 10,
         securityCheck = \<lparr>hasAds = False, hasTracking = False,
           hasExternalLinks = False, contentModerated = True\<rparr>,
         securityChecks = None\<rparr>,
       stats = \<lparr>likes = 5, opens = 0, reports = 3, avgPlayTime = None\<rparr>,
       lastPlayed = None\<rparr>"]
  by (simp add: playTimeScore_def)

section \<open>Composite trust score\<close>


text \<open>
  For every game the age-match factor is 1, an exception of \<open>getRiskLevelScore\<close> is the
  only way not to return, and a returned score is the product of the three other factors.
  The game's own age range changes nothing.
\<close>

lemma TrustScoreEngine_getAgeMatchScore_no_user_age:
  "TrustScoreEngine_getAgeMatchScore game None = 1"
  by (simp add: TrustScoreEngine_getAgeMatchScore_def)

lemma calculateTrustScore_factors:
  "calculateTrustScore now1 now2 game =
     (case getRiskLevelScore game of
        Inl e \<Rightarrow> Inl e
      | Inr riskLevel \<Rightarrow>
          Inr (map_option (\<lambda>b. b * riskLevel * getFreshnessScore now1 now2 game)
                 (getBaseScore game)))"
proof -
  obtain b where b: "getBaseScore game = Some b"
    using getBaseScore_total by blast
  show ?thesis
    by (simp add: calculateTrustScore_def b TrustScoreEngine_getAgeMatchScore_no_user_age
        split: sum.splits)
qed

lemma calculateTrustScore_when_flags_present:
  assumes "securityChecks (trustBadge game) = Some flags"
  shows "\<exists>b riskLevel. getBaseScore game = Some b \<and> getRiskLevelScore game = Inr riskLevel \<and>
           calculateTrustScore now1 now2 game =
             Inr (Some (b * riskLevel * getFreshnessScore now1 now2 game))"
proof -
  obtain b where b: "getBaseScore game = Some b"
    using getBaseScore_total by blast
  obtain riskLevel where r: "getRiskLevelScore game = Inr riskLevel"
    using assms by (simp add: getRiskLevelScore_def Let_def)
  show ?thesis
    using b r by (simp add: calculateTrustScore_factors)
qed

lemma calculateTrustScore_ageRange_irrelevant:
  "calculateTrustScore now1 now2 (game\<lparr>ageRange := r\<rparr>) = calculateTrustScore now1 now2 game"
proof -
  have b: "getBaseScore (game\<lparr>ageRange := r\<rparr>) = getBaseScore game"
    by (simp add: getBaseScore_def)
  have k: "getRiskLevelScore (game\<lparr>ageRange := r\<rparr>) = getRiskLevelScore game"
    by (simp add: getRiskLevelScore_def)
  have f: "getFreshnessScore now1 now2 (game\<lparr>ageRange := r\<rparr>) =
             getFreshnessScore now1 now2 game"
    by (simp add: getFreshnessScore_def)
  show ?thesis
    by (simp only: calculateTrustScore_factors b k f)
qed

text \<open>
  C1. The claim bounds the score by 0 and 1 for all non-negative counters. The code
  clamps the play-time term and the risk-level score, but not the two rates: on a card
  that carries the flags where the engine reads them, with 5 likes on 2 opens the score
  is 1.6, and with 10 reports on 1 open it is -1.8.
\<close>

theorem calculateTrustScore_outside_unit_interval:
  "calculateTrustScore 1700000000000 1700000000000
     \<lparr>ageRange = (6, 9),
       trustBadge = \<lparr>level = verified, parentRating = 4.5, totalRatings = 10,
         securityCheck = \<lparr>hasAds = False, hasTracking = False,
           hasExternalLinks = False, contentModerated = True\<rparr>,
         securityChecks = Some \<lparr>hasAds = False, hasTracking = False,
           hasExternalLinks = False, contentModerated = True\<rparr>\<rparr>,
       stats = \<lparr>likes = 5, opens = 2, reports = 0, avgPlayTime = Some 60\<rparr>,
       lastPlayed = None\<rparr> = Inr (Some (8 / 5)) \<and>
   calculateTrustScore 1700000000000 1700000000000
     \<lparr>ageRange = (6, 9),
       trustBadge = \<lparr>level = verified, parentRating = 4.5, totalRatings = 10,
         securityCheck = \<lparr>hasAds = False, hasTracking = False,
           hasExternalLinks = False, contentModerated = True\<rparr>,
         securityChecks = Some \<lparr>hasAds = False, hasTracking = False,
           hasExternalLinks = False, contentModerated = True\<rparr>\<rparr>,
       stats = \<lparr>likes = 0, opens = 1, reports = 10, avgPlayTime = Some 0\<rparr>,
       lastPlayed = None\<rparr> = Inr (Some (- (9 / 5)))"
  by (simp add: calculateTrustScore_def getBaseScore_def likeRate_def reportRate_def
      js_div_def playTimeScore_def TrustScoreEngine_getAgeMatchScore_def
      getRiskLevelScore_def getFreshnessScore_def)

text \<open>
  The bound does hold for the games that carry the flags where the engine reads them and
  whose likes and reports do not exceed their opens.
\<close>

lemma playTimeScore_bounds:
  "(case avgPlayTime s of None \<Rightarrow> True | Some t \<Rightarrow> 0 \<le> t) \<Longrightarrow>
   0 \<le> playTimeScore s \<and> playTimeScore s \<le> 1"
  by (auto simp: playTimeScore_def split: option.splits)

lemma getRiskLevelScore_bounds:
  assumes "getRiskLevelScore game = Inr riskLevel"
  shows "1 / 2 \<le> riskLevel \<and> riskLevel \<le> 1"
  using assms by (auto simp: getRiskLevelScore_def Let_def split: option.splits)

lemma getFreshnessScore_bounds:
  "7 / 10 \<le> getFreshnessScore now1 now2 game \<and> getFreshnessScore now1 now2 game \<le> 1"
  by (simp add: getFreshnessScore_def Let_def)

lemma weighted_sum_bounds:
  fixes p l r :: real
  assumes "0 \<le> p" "p \<le> 1" "0 \<le> l" "l \<le> 1" "0 \<le> r" "r \<le> 1"
  shows "0 \<le> p * 0.4 + l * 0.4 + (1 - r) * 0.2" and "p * 0.4 + l * 0.4 + (1 - r) * 0.2 \<le> 1"
  using assms by (simp_all add: field_simps)

lemma getBaseScore_bounds:
  assumes "0 \<le> likes (stats game)" "0 \<le> reports (stats game)" "0 \<le> opens (stats game)"
    and "likes (stats game) \<le> opens (stats game)" "reports (stats game) \<le> opens (stats game)"
    and "case avgPlayTime (stats game) of None \<Rightarrow> True | Some t \<Rightarrow> 0 \<le> t"
  shows "\<exists>b. getBaseScore game = Some b \<and> 0 \<le> b \<and> b \<le> 1"
proof -
  have p: "0 \<le> playTimeScore (stats game)" "playTimeScore (stats game) \<le> 1"
    using playTimeScore_bounds [OF assms(6)] by simp_all
  obtain lr where lr: "likeRate (stats game) = Some lr" "0 \<le> lr" "lr \<le> 1"
    using assms(1,3,4) by (cases "opens (stats game) > 0") (simp_all add: likeRate_def js_div_def)
  obtain rr where rr: "reportRate (stats game) = Some rr" "0 \<le> rr" "rr \<le> 1"
    using assms(2,3,5) by (cases "opens (stats game) > 0") (simp_all add: reportRate_def js_div_def)
  have "getBaseScore game = Some (playTimeScore (stats game) * 0.4 + lr * 0.4 + (1 - rr) * 0.2)"
    by (simp add: getBaseScore_def lr(1) rr(1))
  then show ?thesis
    using weighted_sum_bounds [OF p lr(2,3) rr(2,3)] by blast
qed

lemma calculateTrustScore_bounds_when_rates_at_most_one:
  assumes "securityChecks (trustBadge game) = Some flags"
    and "0 \<le> likes (stats game)" "0 \<le> reports (stats game)" "0 \<le> opens (stats game)"
    and "likes (stats game) \<le> opens (stats game)" "reports (stats game) \<le> opens (stats game)"
    and "case avgPlayTime (stats game) of None \<Rightarrow> True | Some t \<Rightarrow> 0 \<le> t"
  shows "\<exists>v. calculateTrustScore now1 now2 game = Inr (Some v) \<and> 0 \<le> v \<and> v \<le> 1"
proof -
  obtain b where b: "getBaseScore game = Some b" "0 \<le> b" "b \<le> 1"
    using getBaseScore_bounds [OF assms(2-7)] by blast
  obtain r where rl: "getRiskLevelScore game = Inr r"
    using assms(1) by (simp add: getRiskLevelScore_def Let_def)
  let ?f = "getFreshnessScore now1 now2 game"
  have r: "0 \<le> r" "r \<le> 1" using getRiskLevelScore_bounds [OF rl] by simp_all
  have f: "0 \<le> ?f" "?f \<le> 1" using getFreshnessScore_bounds [of now1 now2 game] by simp_all
  have v: "calculateTrustScore now1 now2 game = Inr (Some (b * r * ?f))"
    by (simp add: calculateTrustScore_factors b(1) rl)
  have "0 \<le> b * r * ?f" using b r f by simp
  moreover have "b * r \<le> 1" using b r by (simp add: mult_le_one)
  then have "b * r * ?f \<le> 1" using b r f by (simp add: mult_le_one)
  ultimately show ?thesis using v by blast
qed

section \<open>Age match\<close>

text \<open>
  C8. For every integer user age and every age range, the match score of the
  recommendation engine and the age-fit factor of the trust engine, applied to a game with
  that age range, are equal; the common value is 1 inside the range, 0.8 within one year
  of a bound, 0.6 within two years, and 0.3 otherwise.
\<close>

theorem getAgeMatchScore_engines_agree:
  "AgeRecommendationEngine_getAgeMatchScore userAge (lo, hi) =
     TrustScoreEngine_getAgeMatchScore (game\<lparr>ageRange := (lo, hi)\<rparr>) (Some userAge) \<and>
   AgeRecommendationEngine_getAgeMatchScore userAge (lo, hi) =
     (if lo \<le> userAge \<and> userAge \<le> hi then 1
      else if \<bar>userAge - lo\<bar> \<le> 1 \<or> \<bar>userAge - hi\<bar> \<le> 1 then 0.8
      else if \<bar>userAge - lo\<bar> \<le> 2 \<or> \<bar>userAge - hi\<bar> \<le> 2 then 0.6
      else 0.3)"
  by (simp add: AgeRecommendationEngine_getAgeMatchScore_def
      TrustScoreEngine_getAgeMatchScore_def)

section \<open>The map key is injective\<close>

lemma ageKey_examples:
  "ageKey (3, 6) = ''3-6'' \<and> ageKey (12, 99) = ''12-99'' \<and> ageKey (- 1, 2) = ''-1-2''"
  by (simp add: ageKey_def numToString_def natToString.simps digitChar_def char_of_eq_iff)

text \<open>
  Two age ranges with the same key are equal, so the map \<open>counts\<close> has one entry for
  each distinct range.
\<close>

lemma isDigit_digitChar: "d < 10 \<Longrightarrow> isDigit (digitChar d)"
  by (simp add: isDigit_def digitChar_def)

lemma digitChar_inj: "d < 10 \<Longrightarrow> e < 10 \<Longrightarrow> digitChar d = digitChar e \<Longrightarrow> d = e"
  by (simp add: digitChar_def)

lemma minus_not_digit: "\<not> isDigit CHR ''-''"
  by (simp add: isDigit_def)

lemma natToString_not_Nil: "natToString n \<noteq> []"
  by (subst natToString.simps) simp

lemma natToString_digits: "\<forall>c\<in>set (natToString n). isDigit c"
proof (induction n rule: natToString.induct)
  case (1 n)
  show ?case
  proof (cases "n < 10")
    case True
    then show ?thesis by (subst natToString.simps) (simp add: isDigit_digitChar)
  next
    case False
    then show ?thesis using 1 by (subst natToString.simps) (simp add: isDigit_digitChar)
  qed
qed

lemma natToString_length_one: "length (natToString n) = Suc 0 \<longleftrightarrow> n < 10"
proof (cases "n < 10")
  case True
  then show ?thesis by (subst natToString.simps) simp
next
  case False
  have "natToString (n div 10) \<noteq> []" by (rule natToString_not_Nil)
  then have "length (natToString (n div 10)) \<noteq> 0" by simp
  then show ?thesis using False by (subst natToString.simps) simp
qed

lemma natToString_inj: "natToString n = natToString m \<Longrightarrow> n = m"
proof (induction n arbitrary: m rule: natToString.induct)
  case (1 n)
  show ?case
  proof (cases "n < 10")
    case True
    then have "length (natToString n) = Suc 0" by (simp add: natToString_length_one)
    then have m: "m < 10" using "1.prems" by (simp add: natToString_length_one)
    have "natToString n = [digitChar n]" "natToString m = [digitChar m]"
      using True m by (subst natToString.simps, simp)+
    then show ?thesis using "1.prems" True m digitChar_inj by simp
  next
    case False
    then have "length (natToString n) \<noteq> Suc 0" by (simp add: natToString_length_one)
    then have m: "\<not> m < 10" using "1.prems" by (simp add: natToString_length_one)
    have n': "natToString n = natToString (n div 10) @ [digitChar (n mod 10)]"
      using False by (subst natToString.simps) simp
    have m': "natToString m = natToString (m div 10) @ [digitChar (m mod 10)]"
      using m by (subst natToString.simps) simp
    from "1.prems" n' m' have eq: "natToString (n div 10) = natToString (m div 10)"
      and d: "digitChar (n mod 10) = digitChar (m mod 10)" by simp_all
    from "1.IH" [OF False eq] have "n div 10 = m div 10" .
    moreover from d have "n mod 10 = m mod 10" by (simp add: digitChar_inj)
    ultimately show ?thesis by (metis div_mult_mod_eq)
  qed
qed

lemma hd_natToString_digit: "isDigit (hd (natToString n))"
  using natToString_digits [of n] natToString_not_Nil [of n] by (cases "natToString n") simp_all

lemma numToString_inj: "numToString i = numToString j \<Longrightarrow> i = j"
proof -
  assume eq: "numToString i = numToString j"
  have neg: "hd (numToString k) = CHR ''-'' \<longleftrightarrow> k < 0" for k
    using hd_natToString_digit [of "nat k"] minus_not_digit
    by (auto simp: numToString_def)
  from eq have s: "i < 0 \<longleftrightarrow> j < 0" using neg by metis
  show ?thesis
  proof (cases "i < 0")
    case True
    with s eq have "natToString (nat (- i)) = natToString (nat (- j))"
      by (simp add: numToString_def)
    then have "nat (- i) = nat (- j)" by (rule natToString_inj)
    with True s show ?thesis by simp
  next
    case False
    with s eq have "natToString (nat i) = natToString (nat j)"
      by (simp add: numToString_def)
    then have "nat i = nat j" by (rule natToString_inj)
    with False s show ?thesis by simp
  qed
qed

lemma digits_split:
  "\<forall>c\<in>set xs. isDigit c \<Longrightarrow> \<forall>c\<in>set ys. isDigit c \<Longrightarrow>
   xs @ CHR ''-'' # r = ys @ CHR ''-'' # r' \<Longrightarrow> xs = ys \<and> r = r'"
proof (induction xs arbitrary: ys)
  case Nil
  then show ?case using minus_not_digit by (cases ys) auto
next
  case (Cons x xs)
  then show ?case using minus_not_digit by (cases ys) auto
qed

lemma numToString_split:
  assumes "numToString a @ CHR ''-'' # r = numToString c @ CHR ''-'' # r'"
  shows "a = c \<and> r = r'"
proof -
  have neg: "hd (numToString k @ t) = CHR ''-'' \<longleftrightarrow> k < 0" for k t
    using hd_natToString_digit [of "nat k"] minus_not_digit natToString_not_Nil [of "nat k"]
    by (auto simp: numToString_def)
  from assms have s: "a < 0 \<longleftrightarrow> c < 0" using neg by metis
  show ?thesis
  proof (cases "a < 0")
    case True
    with s assms have "natToString (nat (- a)) @ CHR ''-'' # r = natToString (nat (- c)) @ CHR ''-'' # r'"
      by (simp add: numToString_def)
    then have "natToString (nat (- a)) = natToString (nat (- c)) \<and> r = r'"
      using digits_split natToString_digits by blast
    then have "nat (- a) = nat (- c)" "r = r'" using natToString_inj by blast+
    with True s show ?thesis by simp
  next
    case False
    with s assms have "natToString (nat a) @ CHR ''-'' # r = natToString (nat c) @ CHR ''-'' # r'"
      by (simp add: numToString_def)
    then have "natToString (nat a) = natToString (nat c) \<and> r = r'"
      using digits_split natToString_digits by blast
    then have "nat a = nat c" "r = r'" using natToString_inj by blast+
    with False s show ?thesis by simp
  qed
qed

lemma ageKey_inj: "ageKey r = ageKey r' \<Longrightarrow> r = r'"
proof -
  assume eq: "ageKey r = ageKey r'"
  obtain a b where r: "r = (a, b)" by (cases r)
  obtain c d where r': "r' = (c, d)" by (cases r')
  from eq r r' have "numToString a @ CHR ''-'' # numToString b = numToString c @ CHR ''-'' # numToString d"
    by (simp add: ageKey_def)
  then have "a = c \<and> numToString b = numToString d" by (rule numToString_split)
  then show ?thesis using r r' numToString_inj by blast
qed

section \<open>The tally and the stable sort\<close>

lemma find_snoc:
  "List.find P (xs @ [x]) =
     (case List.find P xs of Some y \<Rightarrow> Some y | None \<Rightarrow> if P x then Some x else None)"
  by (induction xs) simp_all

lemma find_firstOccs: "List.find P (rev (remdups (rev ps))) = List.find P ps"
proof (induction ps rule: rev_induct)
  case Nil
  show ?case by simp
next
  case (snoc x ps)
  show ?case
  proof (cases "x \<in> set ps")
    case True
    then have "List.find P ps = None \<Longrightarrow> \<not> P x" by (auto simp: find_None_iff)
    then have "List.find P (ps @ [x]) = List.find P ps"
      by (auto simp: find_snoc split: option.splits)
    with True snoc show ?thesis by simp
  next
    case False
    with snoc show ?thesis by (simp add: find_snoc)
  qed
qed

lemma map_of_keyed:
  "map_of (map (\<lambda>r. (ageKey r, g r)) xs) (ageKey x) = (if x \<in> set xs then Some (g x) else None)"
  by (induction xs) (auto dest: ageKey_inj)

lemma tallyStep_tallyOf: "tallyStep (tallyOf ps) x = tallyOf (ps @ [x])"
proof (cases "x \<in> set ps")
  case True
  have look: "map_of (tallyOf ps) (ageKey x) = Some \<lparr>count = count_list ps x, ageRange_ct = x\<rparr>"
    unfolding tallyOf_def using True by (simp add: map_of_keyed)
  have "tallyStep (tallyOf ps) x =
          map (\<lambda>(k, e). if k = ageKey x then (k, e\<lparr>count := count e + 1\<rparr>) else (k, e)) (tallyOf ps)"
    by (simp add: tallyStep_def look)
  also have "\<dots> = map (\<lambda>r. (ageKey r, \<lparr>count = count_list (ps @ [x]) r, ageRange_ct = r\<rparr>))
                      (rev (remdups (rev ps)))"
    unfolding tallyOf_def by (auto dest: ageKey_inj)
  also have "\<dots> = tallyOf (ps @ [x])"
    unfolding tallyOf_def using True by simp
  finally show ?thesis .
next
  case False
  have look: "map_of (tallyOf ps) (ageKey x) = None"
    unfolding tallyOf_def using False by (simp add: map_of_keyed)
  have "tallyStep (tallyOf ps) x = tallyOf ps @ [(ageKey x, \<lparr>count = 1, ageRange_ct = x\<rparr>)]"
    by (simp add: tallyStep_def look)
  also have "\<dots> = tallyOf (ps @ [x])"
    unfolding tallyOf_def using False by auto
  finally show ?thesis .
qed

lemma foldl_tallyStep: "foldl tallyStep [] ps = tallyOf ps"
proof (induction ps rule: rev_induct)
  case Nil
  show ?case by (simp add: tallyOf_def)
next
  case (snoc x ps)
  then show ?case by (simp add: tallyStep_tallyOf)
qed

lemma hd_insort_key:
  "hd (insort_key f x ys) = (if ys = [] \<or> f x \<le> f (hd ys) then x else hd ys)"
  by (cases ys) simp_all

lemma find_least_sort_key:
  "xs \<noteq> [] \<Longrightarrow> List.find (\<lambda>x. \<forall>y\<in>set xs. f x \<le> f y) xs = Some (hd (sort_key f xs))"
proof (induction xs)
  case Nil
  then show ?case by simp
next
  case (Cons x xs)
  show ?case
  proof (cases "xs = []")
    case True
    then show ?thesis by simp
  next
    case False
    let ?h = "hd (sort_key f xs)"
    from Cons.IH [OF False]
    have IH: "List.find (\<lambda>z. \<forall>y\<in>set xs. f z \<le> f y) xs = Some ?h" .
    then have h: "?h \<in> set xs" "\<forall>y\<in>set xs. f ?h \<le> f y"
      by (auto simp: find_Some_iff)
    have ne: "sort_key f xs \<noteq> []" using False by (metis length_sort length_0_conv)
    show ?thesis
    proof (cases "f x \<le> f ?h")
      case True
      then have "\<forall>y\<in>set (x # xs). f x \<le> f y" using h(2) by auto
      then show ?thesis using True ne by (simp add: hd_insort_key)
    next
      case lt: False
      define P where "P = (\<lambda>z. \<forall>y\<in>set (x # xs). f z \<le> f y)"
      have nx: "\<not> P x" unfolding P_def using lt h(1) by auto
      have "List.find P xs = List.find (\<lambda>z. \<forall>y\<in>set xs. f z \<le> f y) xs"
      proof (rule find_cong [OF refl])
        fix z assume "z \<in> set xs"
        show "P z = (\<forall>y\<in>set xs. f z \<le> f y)"
          unfolding P_def using lt h by fastforce
      qed
      with nx IH have "List.find P (x # xs) = Some ?h" by simp
      moreover have "hd (sort_key f (x # xs)) = ?h"
        using lt ne by (simp add: hd_insort_key)
      ultimately show ?thesis unfolding P_def by simp
    qed
  qed
qed

lemma sort_key_not_Nil: "xs \<noteq> [] \<Longrightarrow> sort_key f xs \<noteq> []"
  by (metis length_sort length_0_conv)

lemma find_map_inj:
  "List.find P (map g xs) = map_option g (List.find (\<lambda>x. P (g x)) xs)"
  by (induction xs) simp_all

lemma getMostCommonAgeRange_first_most_frequent:
  assumes "ps \<noteq> []"
  shows "\<exists>r. getMostCommonAgeRange ps = Some r \<and>
             List.find (\<lambda>r. \<forall>r'\<in>set ps. count_list ps r' \<le> count_list ps r) ps = Some r"
proof -
  let ?mk = "\<lambda>r. \<lparr>count = count_list ps r, ageRange_ct = r\<rparr>"
  let ?F = "rev (remdups (rev ps))"
  let ?key = "\<lambda>e::CountEntry. - int (count e)"
  let ?vals = "map ?mk ?F"
  have vals: "map snd (foldl tallyStep [] ps) = ?vals"
    by (simp add: foldl_tallyStep tallyOf_def comp_def)
  have ne: "?vals \<noteq> []" using assms by simp
  have "List.find (\<lambda>e. \<forall>y\<in>set ?vals. ?key e \<le> ?key y) ?vals = Some (hd (sort_key ?key ?vals))"
    by (rule find_least_sort_key [OF ne])
  then have "map_option ?mk (List.find (\<lambda>r. \<forall>y\<in>set ?vals. ?key (?mk r) \<le> ?key y) ?F)
               = Some (hd (sort_key ?key ?vals))"
    by (simp only: find_map_inj)
  moreover have "(\<lambda>r. \<forall>y\<in>set ?vals. ?key (?mk r) \<le> ?key y)
                   = (\<lambda>r. \<forall>r'\<in>set ps. count_list ps r' \<le> count_list ps r)"
    by (rule ext) auto
  ultimately have "map_option ?mk (List.find (\<lambda>r. \<forall>r'\<in>set ps. count_list ps r' \<le> count_list ps r) ps)
               = Some (hd (sort_key ?key ?vals))"
    by (simp only: find_firstOccs)
  then obtain r0 where r0: "List.find (\<lambda>r. \<forall>r'\<in>set ps. count_list ps r' \<le> count_list ps r) ps = Some r0"
    and hd: "hd (sort_key ?key ?vals) = ?mk r0"
    by (cases "List.find (\<lambda>r. \<forall>r'\<in>set ps. count_list ps r' \<le> count_list ps r) ps") auto
  obtain e es where srt: "sort_key ?key ?vals = e # es"
    using ne sort_key_not_Nil [of ?vals ?key] by (cases "sort_key ?key ?vals") blast+
  have "getMostCommonAgeRange ps =
          (case sort_key ?key (map snd (foldl tallyStep [] ps)) of
             [] \<Rightarrow> None | e # _ \<Rightarrow> Some (ageRange_ct e))"
    using assms by (simp only: getMostCommonAgeRange_def Let_def length_0_conv if_False)
  also have "\<dots> = Some (ageRange_ct e)"
    by (simp only: vals srt list.case)
  finally have "getMostCommonAgeRange ps = Some (ageRange_ct e)" .
  moreover from hd srt have "e = ?mk r0" by simp
  ultimately show ?thesis using r0 by simp
qed

section \<open>Recommendation from the history\<close>

text \<open>
  C2, as the specification states it: a set preference is returned whatever
  \<open>recentGames\<close> holds, the empty list included. With an empty list the code returns
  the default band before it looks at the preference.
\<close>

theorem recommendAge_empty_history_ignores_preference:
  "recommendAge (Some \<lparr>recentGames = [], preferredAge = Some (3, 6)\<rparr>) = (6, 9) \<and>
   recommendAge (Some \<lparr>recentGames = [], preferredAge = Some (3, 6)\<rparr>) \<noteq> (3, 6)"
  by (simp add: recommendAge_def getDefaultAge_def)

text \<open>
  C2, amended: when the preference is set and \<open>recentGames\<close> is not empty,
  \<open>recommendAge\<close> returns the preference, whatever the entries are; when
  \<open>recentGames\<close> is empty it returns the default band (6, 9).
\<close>

theorem recommendAge_preferredAge:
  assumes "preferredAge h = Some p"
  shows "recommendAge (Some h) = (if recentGames h = [] then (6, 9) else p)"
  using assms by (simp add: recommendAge_def getDefaultAge_def)

text \<open>
  C2, amended, at a history of four entries of the bands (3, 6) and (6, 9) with the
  preference (9, 12).
\<close>

theorem recommendAge_preferredAge_witness:
  "recommendAge
     (Some \<lparr>recentGames =
        [\<lparr>gameId = ''a'', ageRange_rg = (3, 6), playedAt = 1\<rparr>,
         \<lparr>gameId = ''b'', ageRange_rg = (6, 9), playedAt = 2\<rparr>,
         \<lparr>gameId = ''c'', ageRange_rg = (6, 9), playedAt = 3\<rparr>,
         \<lparr>gameId = ''d'', ageRange_rg = (3, 6), playedAt = 4\<rparr>],
       preferredAge = Some (9, 12)\<rparr>) = (9, 12)"
  using recommendAge_preferredAge [of
     "\<lparr>recentGames =
        [\<lparr>gameId = ''a'', ageRange_rg = (3, 6), playedAt = 1\<rparr>,
         \<lparr>gameId = ''b'', ageRange_rg = (6, 9), playedAt = 2\<rparr>,
         \<lparr>gameId = ''c'', ageRange_rg = (6, 9), playedAt = 3\<rparr>,
         \<lparr>gameId = ''d'', ageRange_rg = (3, 6), playedAt = 4\<rparr>],
       preferredAge = Some (9, 12)\<rparr>" "(9, 12)"]
  by simp

text \<open>
  C9. The history returned by \<open>recordAgeSelection\<close> starts with the new entry, followed
  by the first 49 entries of the previous list in their order (none when there was no
  history); it has at most 50 entries.
\<close>

theorem recordAgeSelection_recentGames:
  "recentGames (recordAgeSelection now userHistory r) =
     \<lparr>gameId = ''age-selection'', ageRange_rg = r, playedAt = now\<rparr>
     # take 49 (case userHistory of None \<Rightarrow> [] | Some h \<Rightarrow> recentGames h) \<and>
   length (recentGames (recordAgeSelection now userHistory r)) \<le> 50 \<and>
   length (recentGames (recordAgeSelection now userHistory r)) =
     1 + min 49 (length (case userHistory of None \<Rightarrow> [] | Some h \<Rightarrow> recentGames h))"
  by (cases userHistory) (simp_all add: recordAgeSelection_def min_def)

text \<open>
  C4, as the specification states it: among bands tied for the highest count, the first
  band to reach that count during the pass wins. In the list (3, 6), (6, 9), (6, 9),
  (3, 6) the band (6, 9) reaches the count 2 first; the code returns (3, 6).
\<close>

theorem recommendAge_tie_not_first_to_reach_max:
  "recommendAge
     (Some \<lparr>recentGames =
        [\<lparr>gameId = ''a'', ageRange_rg = (3, 6), playedAt = 1\<rparr>,
         \<lparr>gameId = ''b'', ageRange_rg = (6, 9), playedAt = 2\<rparr>,
         \<lparr>gameId = ''c'', ageRange_rg = (6, 9), playedAt = 3\<rparr>,
         \<lparr>gameId = ''d'', ageRange_rg = (3, 6), playedAt = 4\<rparr>],
       preferredAge = None\<rparr>) = (3, 6) \<and>
   spec_firstToReachMaxCount [(3, 6), (6, 9), (6, 9), (3, 6)] = Some (6, 9)"
  by (simp add: recommendAge_def getMostCommonAgeRange_def tallyStep_def ageKey_def
      numToString_def natToString.simps digitChar_def
      spec_firstToReachMaxCount_def spec_passStep_def)

text \<open>
  C4, amended: with no preference and a non-empty \<open>recentGames\<close>, \<open>recommendAge\<close>
  returns the band that occurs most often; among bands tied for the highest count it
  returns the one whose first occurrence in the list is the earliest.
\<close>

theorem recommendAge_first_most_frequent:
  assumes "preferredAge h = None" and "recentGames h \<noteq> []"
  shows "firstMostFrequent (map ageRange_rg (recentGames h)) = Some (recommendAge (Some h))"
proof -
  let ?ages = "map ageRange_rg (recentGames h)"
  have ne: "?ages \<noteq> []" using assms(2) by simp
  obtain r where r: "getMostCommonAgeRange ?ages = Some r"
    and first: "firstMostFrequent ?ages = Some r"
    unfolding firstMostFrequent_def
    using getMostCommonAgeRange_first_most_frequent [OF ne] by blast
  have "recommendAge (Some h) = r"
    using assms r by (simp add: recommendAge_def)
  with first show ?thesis by simp
qed

text \<open>
  C4, amended, at the list (3, 6), (6, 9), (6, 9), (3, 6): both bands occur twice, and
  (3, 6) occurs first.
\<close>

theorem recommendAge_first_most_frequent_witness:
  "recommendAge
     (Some \<lparr>recentGames =
        [\<lparr>gameId = ''a'', ageRange_rg = (3, 6), playedAt = 1\<rparr>,
         \<lparr>gameId = ''b'', ageRange_rg = (6, 9), playedAt = 2\<rparr>,
         \<lparr>gameId = ''c'', ageRange_rg = (6, 9), playedAt = 3\<rparr>,
         \<lparr>gameId = ''d'', ageRange_rg = (3, 6), playedAt = 4\<rparr>],
       preferredAge = None\<rparr>) = (3, 6)"
  using recommendAge_first_most_frequent [of
     "\<lparr>recentGames =
        [\<lparr>gameId = ''a'', ageRange_rg = (3, 6), playedAt = 1\<rparr>,
         \<lparr>gameId = ''b'', ageRange_rg = (6, 9), playedAt = 2\<rparr>,
         \<lparr>gameId = ''c'', ageRange_rg = (6, 9), playedAt = 3\<rparr>,
         \<lparr>gameId = ''d'', ageRange_rg = (3, 6), playedAt = 4\<rparr>],
       preferredAge = None\<rparr>"]
  by (simp add: firstMostFrequent_def)

end
